theory Spec2Isabelle
  imports Complex_Main
begin

section \<open>Shared data model\<close>

text \<open>
  The client is written in TypeScript on React Native. Every \<^verbatim>\<open>await\<close> either
  resolves with a value or rejects (the \<^verbatim>\<open>catch\<close> block of the handler runs), so
  the outcome of an awaited call is a value of \<open>promise\<close>. A resolved \<^verbatim>\<open>fetch\<close>
  carries the \<^verbatim>\<open>ok\<close> flag of the HTTP status and the outcome of reading its JSON
  body. \<^verbatim>\<open>Alert.alert(title, message)\<close> is recorded as the pair of its two strings.
\<close>

datatype 'a promise = Rejected | Resolved 'a

record 'a response =
  ok :: bool
  json :: "'a promise"

type_synonym alert = "string \<times> string"

text \<open>
  \<^verbatim>\<open>src/types/Event.ts\<close> (and the identical interface at the top of
  \<^verbatim>\<open>EventDetails.tsx\<close>). The field \<^verbatim>\<open>id\<close> is written \<open>id'\<close>; a JSON number is
  a rational; the optional \<^verbatim>\<open>imageUrl\<close> is an option.
\<close>

record position =
  latitude :: rat
  longitude :: rat

record event =
  id' :: string
  name :: string
  description :: string
  organizerId :: string
  dateTime :: string
  imageUrl :: "string option"
  position :: position
  volunteersNeeded :: rat
  volunteersIds :: "string list"

text \<open>
  JavaScript truthiness of a \<^verbatim>\<open>string | null\<close>: \<^verbatim>\<open>null\<close> and the empty string are
  falsy.
\<close>

fun truthy :: "string option \<Rightarrow> bool" where
  "truthy None = False"
| "truthy (Some s) = (s \<noteq> [])"

section \<open>EventDetails: participation status and signup\<close>

text \<open>
  \<^verbatim>\<open>isVolunteered\<close> and \<^verbatim>\<open>isFull\<close> are memoised on the \<^verbatim>\<open>event\<close> and
  \<^verbatim>\<open>userId\<close> state, so at every render and in every handler they are the values
  computed from the current state.
\<close>

definition isVolunteered :: "event option \<Rightarrow> string option \<Rightarrow> bool" where
  "isVolunteered ev userId =
     (case ev of
        None \<Rightarrow> False
      | Some e \<Rightarrow>
          (case userId of
             None \<Rightarrow> False
           | Some u \<Rightarrow> if u = [] then False else u \<in> set (volunteersIds e)))"

definition isFull :: "event option \<Rightarrow> bool" where
  "isFull ev =
     (case ev of
        None \<Rightarrow> False
      | Some e \<Rightarrow> volunteersNeeded e \<le> of_nat (length (volunteersIds e)))"

text \<open>
  The status box of the rendered screen (the conditional at lines 219-234), after the
  two early returns of the component: the spinner while loading and the
  \<^verbatim>\<open>Event not found.\<close> text when there is no event. \<open>Open k n\<close> is the text
  \<^verbatim>\<open>k of n needed\<close>.
\<close>

datatype status = Volunteered | TeamFull | Open nat rat

datatype view = Spinner | EventNotFound | Details status

definition statusBox :: "event \<Rightarrow> string option \<Rightarrow> status" where
  "statusBox e userId =
     (if isVolunteered (Some e) userId then Volunteered
      else if isFull (Some e) then TeamFull
      else Open (length (volunteersIds e)) (volunteersNeeded e))"

definition render :: "bool \<Rightarrow> event option \<Rightarrow> string option \<Rightarrow> view" where
  "render loading ev userId =
     (if loading then Spinner
      else case ev of
             None \<Rightarrow> EventNotFound
           | Some e \<Rightarrow> Details (statusBox e userId))"

text \<open>
  \<^verbatim>\<open>handleVolunteer\<close> (lines 121-143). The result holds the \<^verbatim>\<open>event\<close> state after
  the handler, the alerts it raised and the PATCH requests it issued, each as the pair
  of the event id in the URL and the \<^verbatim>\<open>volunteersIds\<close> of the body. The argument
  \<open>patch\<close> is the outcome of the awaited \<^verbatim>\<open>fetch\<close>; the handler never reads the
  response.
\<close>

record volunteer_result =
  shown :: "event option"
  alerts :: "alert list"
  patches :: "(string \<times> string list) list"

definition handleVolunteer ::
  "event option \<Rightarrow> string option \<Rightarrow> 'a response promise \<Rightarrow> volunteer_result" where
  "handleVolunteer ev userId patch =
     (case ev of
        None \<Rightarrow> \<lparr>shown = ev, alerts = [], patches = []\<rparr>
      | Some e \<Rightarrow>
          if \<not> truthy userId then
            \<lparr>shown = ev, alerts = [(''Login required'', ''You must log in to volunteer.'')],
             patches = []\<rparr>
          else if isVolunteered ev userId \<or> isFull ev then
            \<lparr>shown = ev, alerts = [], patches = []\<rparr>
          else
            let updated = volunteersIds e @ [the userId] in
            (case patch of
               Rejected \<Rightarrow>
                 \<lparr>shown = ev,
                  alerts = [(''Error'', ''Could not update volunteering status.'')],
                  patches = [(id' e, updated)]\<rparr>
             | Resolved r \<Rightarrow>
                 \<lparr>shown = Some (e\<lparr>volunteersIds := updated\<rparr>),
                  alerts = [(''Success'', ''You have volunteered for this event!'')],
                  patches = [(id' e, updated)]\<rparr>))"

section \<open>EventsMap: the event list and its cache\<close>

text \<open>
  What \<^verbatim>\<open>fetchEvents\<close> takes from the platform. \<^verbatim>\<open>EVENTS_CACHE_KEY\<close> is a constant
  of \<^verbatim>\<open>constants/Api\<close>; \<open>getTime s\<close> is \<^verbatim>\<open>new Date(s).getTime()\<close>, with \<open>None\<close>
  for \<^verbatim>\<open>NaN\<close> (an invalid date); \<open>stringify\<close> and \<open>parse\<close> are \<^verbatim>\<open>JSON.stringify\<close>
  and \<^verbatim>\<open>JSON.parse\<close> on event lists, \<open>parse\<close> giving \<open>None\<close> where
  \<^verbatim>\<open>JSON.parse\<close> throws.
\<close>

record platform =
  cacheKey :: string
  getTime :: "string \<Rightarrow> int option"
  stringify :: "event list \<Rightarrow> string"
  parse :: "string \<Rightarrow> event list option"

text \<open>
  What one call of \<^verbatim>\<open>fetchEvents\<close> meets: the outcome of \<^verbatim>\<open>NetInfo.fetch()\<close>
  (\<^verbatim>\<open>isConnected\<close> is \<^verbatim>\<open>boolean | null\<close>), the outcome of the GET of
  \<^verbatim>\<open>/events\<close>, the readings of \<^verbatim>\<open>Date.now()\<close> in the order they are taken (the
  filter callback reads the clock once per element), and whether
  \<^verbatim>\<open>AsyncStorage.setItem\<close> resolves. A rejected body stands for everything that makes
  lines 29-30 throw: a body that is not JSON, or not an array of events.
\<close>

record network =
  netInfo :: "bool option promise"
  listResponse :: "event list response promise"
  clock :: "nat \<Rightarrow> int"
  writable :: bool

text \<open>The \<^verbatim>\<open>events\<close> state of the screen and the contents of \<^verbatim>\<open>AsyncStorage\<close>.\<close>

record app =
  events :: "event list"
  store :: "string \<rightharpoonup> string"

text \<open>
  The comparison of line 30, \<^verbatim>\<open>new Date(e.dateTime).getTime() >= Date.now()\<close>; a
  comparison with \<^verbatim>\<open>NaN\<close> is false.
\<close>

definition notPast :: "platform \<Rightarrow> int \<Rightarrow> event \<Rightarrow> bool" where
  "notPast P t e = (case getTime P (dateTime e) of None \<Rightarrow> False | Some d \<Rightarrow> t \<le> d)"

fun futureEvents :: "platform \<Rightarrow> (nat \<Rightarrow> int) \<Rightarrow> nat \<Rightarrow> event list \<Rightarrow> event list" where
  "futureEvents P clk i [] = []"
| "futureEvents P clk i (e # es) =
     (if notPast P (clk i) e then e # futureEvents P clk (Suc i) es
      else futureEvents P clk (Suc i) es)"

text \<open>
  The cache read shared by the \<^verbatim>\<open>else\<close> branch (lines 34-39) and the
  \<^verbatim>\<open>catch\<close> block (lines 43-48), which differ in the alert only. \<open>None\<close>: \<^verbatim>\<open>JSON.parse\<close>
  threw.
\<close>

definition loadCached :: "platform \<Rightarrow> alert \<Rightarrow> app \<Rightarrow> (app \<times> alert list) option" where
  "loadCached P a st =
     (let cached = store st (cacheKey P) in
      if truthy cached then
        (case parse P (the cached) of
           None \<Rightarrow> None
         | Some xs \<Rightarrow> Some (st\<lparr>events := xs\<rparr>, []))
      else Some (st, [a]))"

text \<open>
  The \<^verbatim>\<open>try\<close> block (lines 22-40): it completes, or it throws, and either way the state
  it has reached stays (\<^verbatim>\<open>setEvents\<close> of line 31 runs before \<^verbatim>\<open>setItem\<close> of line 32).
\<close>

datatype attempt = Threw app | Completed app "alert list"

definition tryBlock :: "platform \<Rightarrow> network \<Rightarrow> app \<Rightarrow> attempt" where
  "tryBlock P W st =
     (case netInfo W of
        Rejected \<Rightarrow> Threw st
      | Resolved isConnected \<Rightarrow>
          if isConnected = Some True then
            (case listResponse W of
               Rejected \<Rightarrow> Threw st
             | Resolved r \<Rightarrow>
                 if \<not> ok r then Threw st
                 else
                   (case json r of
                      Rejected \<Rightarrow> Threw st
                    | Resolved data \<Rightarrow>
                        let fut = futureEvents P (clock W) 0 data;
                            st1 = st\<lparr>events := fut\<rparr>
                        in if writable W
                           then Completed
                                  (st1\<lparr>store := (store st1)(cacheKey P \<mapsto> stringify P fut)\<rparr>) []
                           else Threw st1))
          else
            (case loadCached P (''Offline'', ''No cached events available.'') st of
               None \<Rightarrow> Threw st
             | Some (st', al) \<Rightarrow> Completed st' al))"

text \<open>
  \<^verbatim>\<open>fetchEvents\<close> (lines 21-50). \<open>uncaught\<close>: the \<^verbatim>\<open>catch\<close> block itself threw
  (\<^verbatim>\<open>JSON.parse\<close> of a cached string that is not JSON), so the promise of
  \<^verbatim>\<open>fetchEvents\<close> rejects.
\<close>

record fetch_result =
  after :: app
  raised :: "alert list"
  uncaught :: bool

definition fetchEvents :: "platform \<Rightarrow> network \<Rightarrow> app \<Rightarrow> fetch_result" where
  "fetchEvents P W st =
     (case tryBlock P W st of
        Completed st' al \<Rightarrow> \<lparr>after = st', raised = al, uncaught = False\<rparr>
      | Threw st1 \<Rightarrow>
          (case loadCached P (''Error'', ''Unable to load events.'') st1 of
             None \<Rightarrow> \<lparr>after = st1, raised = [], uncaught = True\<rparr>
           | Some (st', al) \<Rightarrow> \<lparr>after = st', raised = al, uncaught = False\<rparr>))"

text \<open>
  The connected path ran to its end: the probe reported a connection, the response was
  a success with a readable body, and the cache write resolved.
\<close>

definition succeeded :: "network \<Rightarrow> bool" where
  "succeeded W =
     (case netInfo W of
        Rejected \<Rightarrow> False
      | Resolved isConnected \<Rightarrow>
          isConnected = Some True \<and>
          (case listResponse W of
             Rejected \<Rightarrow> False
           | Resolved r \<Rightarrow> ok r \<and> (case json r of Rejected \<Rightarrow> False | Resolved data \<Rightarrow> writable W)))"

section \<open>JavaScript numbers and \<^verbatim>\<open>Number(string)\<close>\<close>

text \<open>
  A JavaScript number is an IEEE 754 binary64 value: \<^verbatim>\<open>NaN\<close>, an infinity, or a finite
  value, held here as the rational it denotes (the two zeros are one value; no
  comparison in the code tells them apart).
\<close>

datatype number = NaN | PosInf | NegInf | Fin rat

definition isNaN :: "number \<Rightarrow> bool" where
  "isNaN x = (x = NaN)"

text \<open>\<^verbatim>\<open>x > 0\<close>.\<close>

fun positive :: "number \<Rightarrow> bool" where
  "positive NaN = False"
| "positive PosInf = True"
| "positive NegInf = False"
| "positive (Fin q) = (0 < q)"

text \<open>\<^verbatim>\<open>Number.isInteger(x)\<close>.\<close>

fun isInteger :: "number \<Rightarrow> bool" where
  "isInteger (Fin q) = (q = of_int \<lfloor>q\<rfloor>)"
| "isInteger _ = False"

text \<open>
  Rounding a rational to the nearest binary64 value, ties to even: 53 significant bits,
  exponents from \<open>-1022\<close> to \<open>1023\<close>, gradual underflow below, an infinity from \<open>2 ^ 1024\<close>
  on.
\<close>

fun bitLength :: "nat \<Rightarrow> nat" where
  "bitLength n = (if n = 0 then 0 else Suc (bitLength (n div 2)))"

declare bitLength.simps [simp del]

definition pow2 :: "int \<Rightarrow> rat" where
  "pow2 k = (if 0 \<le> k then 2 ^ nat k else 1 / 2 ^ nat (- k))"

definition ilog2 :: "rat \<Rightarrow> int" where
  "ilog2 a = (let (n, d) = quotient_of a;
                  k = int (bitLength (nat n)) - int (bitLength (nat d))
              in if pow2 k \<le> a then k else k - 1)"

definition roundHalfEven :: "rat \<Rightarrow> int" where
  "roundHalfEven x = (let f = \<lfloor>x\<rfloor>; d = x - of_int f
                      in if d < 1 / 2 then f
                         else if 1 / 2 < d then f + 1
                         else if even f then f else f + 1)"

definition toDouble :: "rat \<Rightarrow> number" where
  "toDouble q =
     (if q = 0 then Fin 0
      else let a = \<bar>q\<bar>;
               e = max (ilog2 a) (- 1022);
               u = pow2 (e - 52);
               m = roundHalfEven (a / u)
           in if 1024 \<le> e \<or> (e = 1023 \<and> m = 2 ^ 53)
              then (if q < 0 then NegInf else PosInf)
              else Fin (if q < 0 then - (of_int m * u) else of_int m * u))"

text \<open>
  \<^verbatim>\<open>Number(s)\<close> on a string is the StringToNumber conversion of ECMAScript: white space
  is trimmed from both ends; the empty string is \<open>0\<close>; \<^verbatim>\<open>0x\<close>, \<^verbatim>\<open>0o\<close> and \<^verbatim>\<open>0b\<close>
  introduce an unsigned integer in base 16, 8 and 2; otherwise the string is an
  optional sign followed by \<^verbatim>\<open>Infinity\<close> or by a decimal literal (digits, an optional
  fraction, an optional exponent); anything else is \<^verbatim>\<open>NaN\<close>. The characters of a
  \<open>string\<close> are the code units below 256, so the white space is the tab, the line
  feed, the vertical tab, the form feed, the carriage return, the space and the
  no-break space.
\<close>

definition isWhiteSpace :: "char \<Rightarrow> bool" where
  "isWhiteSpace c = ((of_char c :: nat) \<in> {9, 10, 11, 12, 13, 32, 160})"

definition trim :: "string \<Rightarrow> string" where
  "trim s = rev (dropWhile isWhiteSpace (rev (dropWhile isWhiteSpace s)))"

text \<open>The value of a digit in a base, \<open>None\<close> for a character that is no digit of it.\<close>

definition digitIn :: "nat \<Rightarrow> char \<Rightarrow> nat option" where
  "digitIn base c =
     (let k = (of_char c :: nat);
          v = (if 48 \<le> k \<and> k \<le> 57 then Some (k - 48)
               else if 97 \<le> k \<and> k \<le> 102 then Some (k - 87)
               else if 65 \<le> k \<and> k \<le> 70 then Some (k - 55)
               else None)
      in case v of None \<Rightarrow> None | Some d \<Rightarrow> if d < base then Some d else None)"

definition isDigit :: "char \<Rightarrow> bool" where
  "isDigit c = (digitIn 10 c \<noteq> None)"

fun digitsValue :: "nat \<Rightarrow> nat \<Rightarrow> string \<Rightarrow> nat option" where
  "digitsValue base acc [] = Some acc"
| "digitsValue base acc (c # cs) =
     (case digitIn base c of
        None \<Rightarrow> None
      | Some d \<Rightarrow> digitsValue base (base * acc + d) cs)"

text \<open>One or more digits of the base, and nothing else.\<close>

definition integerLiteral :: "nat \<Rightarrow> string \<Rightarrow> nat option" where
  "integerLiteral base s = (if s = [] then None else digitsValue base 0 s)"

definition pow10 :: "int \<Rightarrow> rat" where
  "pow10 k = (if 0 \<le> k then 10 ^ nat k else 1 / 10 ^ nat (- k))"

text \<open>
  What follows the digits of a decimal literal: nothing, or \<^verbatim>\<open>e\<close> or \<^verbatim>\<open>E\<close>, an
  optional sign and one or more digits.
\<close>

definition exponentPart :: "string \<Rightarrow> int option" where
  "exponentPart s =
     (case s of
        [] \<Rightarrow> Some 0
      | c # r \<Rightarrow>
          if c = CHR ''e'' \<or> c = CHR ''E'' then
            (case r of
               [] \<Rightarrow> None
             | d # r' \<Rightarrow>
                 if d = CHR ''-'' then map_option (\<lambda>n. - int n) (integerLiteral 10 r')
                 else if d = CHR ''+'' then map_option int (integerLiteral 10 r')
                 else map_option int (integerLiteral 10 r))
          else None)"

text \<open>
  An unsigned decimal literal: its exact value, or an infinity. \<open>None\<close>: the string is
  not one.
\<close>

definition unsignedDecimal :: "string \<Rightarrow> number option" where
  "unsignedDecimal s =
     (if s = ''Infinity'' then Some PosInf
      else
        let ip = takeWhile isDigit s;
            r = dropWhile isDigit s;
            fp = (case r of [] \<Rightarrow> [] | c # r' \<Rightarrow> if c = CHR ''.'' then takeWhile isDigit r' else []);
            r2 = (case r of [] \<Rightarrow> [] | c # r' \<Rightarrow> if c = CHR ''.'' then dropWhile isDigit r' else r)
        in if ip = [] \<and> fp = [] then None
           else
             (case (digitsValue 10 0 (ip @ fp), exponentPart r2) of
                (Some m, Some e) \<Rightarrow> Some (Fin (of_nat m * pow10 (e - int (length fp))))
              | _ \<Rightarrow> None))"

definition rounded :: "number \<Rightarrow> number" where
  "rounded x = (case x of Fin q \<Rightarrow> toDouble q | _ \<Rightarrow> x)"

definition negated :: "number \<Rightarrow> number" where
  "negated x = (case x of Fin q \<Rightarrow> Fin (- q) | PosInf \<Rightarrow> NegInf | NegInf \<Rightarrow> PosInf | NaN \<Rightarrow> NaN)"

definition Number :: "string \<Rightarrow> number" where
  "Number s =
     (let t = trim s in
      if t = [] then Fin 0
      else if take 2 t = ''0x'' \<or> take 2 t = ''0X'' then
        (case integerLiteral 16 (drop 2 t) of None \<Rightarrow> NaN | Some n \<Rightarrow> toDouble (of_nat n))
      else if take 2 t = ''0o'' \<or> take 2 t = ''0O'' then
        (case integerLiteral 8 (drop 2 t) of None \<Rightarrow> NaN | Some n \<Rightarrow> toDouble (of_nat n))
      else if take 2 t = ''0b'' \<or> take 2 t = ''0B'' then
        (case integerLiteral 2 (drop 2 t) of None \<Rightarrow> NaN | Some n \<Rightarrow> toDouble (of_nat n))
      else if hd t = CHR ''-'' then
        (case unsignedDecimal (tl t) of None \<Rightarrow> NaN | Some x \<Rightarrow> rounded (negated x))
      else if hd t = CHR ''+'' then
        (case unsignedDecimal (tl t) of None \<Rightarrow> NaN | Some x \<Rightarrow> rounded x)
      else
        (case unsignedDecimal t of None \<Rightarrow> NaN | Some x \<Rightarrow> rounded x))"

section \<open>AddEventForm: validation, submission and the picked image\<close>

text \<open>
  A value as \<^verbatim>\<open>JSON.stringify\<close> sees it. A property whose value is \<^verbatim>\<open>undefined\<close> is
  left out of the object, as \<^verbatim>\<open>JSON.stringify\<close> leaves it out.
\<close>

datatype jsvalue =
    JNull
  | JNum number
  | JStr string
  | JArr "jsvalue list"
  | JObj "(string \<times> jsvalue) list"

text \<open>
  The state of the form the validation reads, and \<^verbatim>\<open>position\<close> of
  \<^verbatim>\<open>route.params || {}\<close>, which is \<^verbatim>\<open>undefined\<close> when the screen was opened without
  parameters. A \<^verbatim>\<open>Date\<close> set by the pickers is a valid date: its time value in
  milliseconds.
\<close>

record form =
  name :: string
  about :: string
  volNeeded :: string
  date :: "int option"
  imageUrl :: "string option"
  position :: "position option"

definition isVolunteersValid :: "string \<Rightarrow> bool" where
  "isVolunteersValid s =
     (let num = Number s in \<not> isNaN num \<and> positive num \<and> isInteger num)"

text \<open>
  \<^verbatim>\<open>isDateValid\<close> is memoised on \<^verbatim>\<open>date\<close> alone: \<open>now\<close> is the reading of
  \<^verbatim>\<open>Date.now()\<close> when the memo was computed.
\<close>

definition isDateValid :: "int \<Rightarrow> form \<Rightarrow> bool" where
  "isDateValid now f = (case date f of None \<Rightarrow> False | Some d \<Rightarrow> now \<le> d)"

definition isDescriptionValid :: "form \<Rightarrow> bool" where
  "isDescriptionValid f = (length (about f) \<le> 300)"

definition allValid :: "int \<Rightarrow> form \<Rightarrow> bool" where
  "allValid now f =
     (name f \<noteq> [] \<and> isDescriptionValid f \<and> isVolunteersValid (volNeeded f)
      \<and> isDateValid now f \<and> truthy (imageUrl f) \<and> date f \<noteq> None)"

text \<open>
  The object of lines 139-148. \<open>toISOString\<close> is \<^verbatim>\<open>Date.prototype.toISOString\<close> on the
  time value.
\<close>

definition eventBody :: "(int \<Rightarrow> string) \<Rightarrow> form \<Rightarrow> int \<Rightarrow> jsvalue" where
  "eventBody toISOString f d =
     JObj ([(''name'', JStr (name f)),
            (''description'', JStr (about f)),
            (''organizerId'', JStr ''ImAdmin''),
            (''dateTime'', JStr (toISOString d)),
            (''imageUrl'', (case imageUrl f of None \<Rightarrow> JNull | Some u \<Rightarrow> JStr u))]
           @ (case position f of
                None \<Rightarrow> []
              | Some p \<Rightarrow>
                  [(''position'',
                    JObj [(''latitude'', JNum (Fin (latitude p))),
                          (''longitude'', JNum (Fin (longitude p)))])])
           @ [(''volunteersNeeded'', JNum (Number (volNeeded f))),
              (''volunteersIds'', JArr [])])"

text \<open>
  \<^verbatim>\<open>onSave\<close> (lines 128-158): the bodies it POSTs to \<^verbatim>\<open>/events\<close>, the alerts it
  raises and the screens it navigates to. \<open>post\<close> is the outcome of the awaited
  \<^verbatim>\<open>fetch\<close>.
\<close>

record save_result =
  posted :: "jsvalue list"
  notices :: "alert list"
  navigated :: "string list"

definition onSave ::
  "(int \<Rightarrow> string) \<Rightarrow> int \<Rightarrow> form \<Rightarrow> 'a response promise \<Rightarrow> save_result" where
  "onSave toISOString now f post =
     (case date f of
        None \<Rightarrow>
          \<lparr>posted = [],
           notices = [(''Validation'', ''Please fill out all fields correctly before saving.'')],
           navigated = []\<rparr>
      | Some d \<Rightarrow>
          if \<not> allValid now f then
            \<lparr>posted = [],
             notices = [(''Validation'', ''Please fill out all fields correctly before saving.'')],
             navigated = []\<rparr>
          else
            (case post of
               Rejected \<Rightarrow>
                 \<lparr>posted = [eventBody toISOString f d],
                  notices = [(''Error'', ''Could not save event.'')],
                  navigated = []\<rparr>
             | Resolved res \<Rightarrow>
                 if \<not> ok res then
                   \<lparr>posted = [eventBody toISOString f d],
                    notices = [(''Error'', ''Could not save event.'')],
                    navigated = []\<rparr>
                 else
                   \<lparr>posted = [eventBody toISOString f d],
                    notices = [(''Success'', ''Event created successfully!'')],
                    navigated = [''EventsMap'']\<rparr>))"

text \<open>
  The picked asset, and the content encoding of \<^verbatim>\<open>handleImagePicked\<close> (lines 70-76):
  the string handed to \<^verbatim>\<open>uploadImage\<close> at line 78, or a rejection when
  \<^verbatim>\<open>FileSystem.readAsStringAsync\<close> rejects. \<open>splitOn\<close> is \<^verbatim>\<open>String.prototype.split\<close>
  with a one-character separator and \<open>pop\<close> is \<^verbatim>\<open>Array.prototype.pop\<close>, \<open>None\<close> for
  \<^verbatim>\<open>undefined\<close>.
\<close>

record asset =
  uri :: string
  fileName :: "string option"
  base64 :: "string option"

fun splitOn :: "char \<Rightarrow> string \<Rightarrow> string list" where
  "splitOn sep [] = [[]]"
| "splitOn sep (c # cs) =
     (if c = sep then [] # splitOn sep cs
      else (case splitOn sep cs of
              [] \<Rightarrow> [[c]]
            | p # ps \<Rightarrow> (c # p) # ps))"

definition pop :: "'a list \<Rightarrow> 'a option" where
  "pop xs = (if xs = [] then None else Some (last xs))"

definition contentEncoding :: "(string \<Rightarrow> string promise) \<Rightarrow> asset \<Rightarrow> string promise" where
  "contentEncoding readAsStringAsync a =
     (let b = (case base64 a of
                 None \<Rightarrow> None
               | Some s \<Rightarrow>
                   if s \<noteq> [] \<and> CHR '','' \<in> set s then pop (splitOn (CHR '','') s)
                   else Some s)
      in if \<not> truthy b then readAsStringAsync (uri a) else Resolved (the b))"

text \<open>
  What \<open>contentEncoding\<close> keeps of an attached string, said without \<open>splitOn\<close>: the
  part after its last comma, which is the whole string when it has none.
\<close>

definition afterLastComma :: "string \<Rightarrow> string" where
  "afterLastComma s = rev (takeWhile (\<lambda>c. c \<noteq> CHR '','') (rev s))"

text \<open>
  The stripping as the specification words it: a prefix up to and including the first
  comma is removed, if there is a comma.
\<close>

definition stripToFirstComma :: "string \<Rightarrow> string" where
  "stripToFirstComma s =
     (if CHR '','' \<in> set s then tl (dropWhile (\<lambda>c. c \<noteq> CHR '','') s) else s)"

text \<open>The value of a property of an object, for reading a request body.\<close>

fun property :: "jsvalue \<Rightarrow> string \<Rightarrow> jsvalue option" where
  "property (JObj kvs) k = map_of kvs k"
| "property _ k = None"

section \<open>Sample data\<close>

text \<open>
  An event with one volunteer out of the two it needs, and a platform for the sample
  runs: three dates it knows, and a codec that writes a list of events as the list of
  their ids and reads back the two lists it is used on.
\<close>

definition sampleEvent :: "string \<Rightarrow> string \<Rightarrow> event" where
  "sampleEvent i d =
     \<lparr>id' = i, event.name = ''Beach cleanup'', description = ''Bring gloves'',
      organizerId = ''o1'', dateTime = d, event.imageUrl = None,
      event.position = \<lparr>latitude = 51, longitude = - 114\<rparr>, volunteersNeeded = 2,
      volunteersIds = [''u1'']\<rparr>"

definition samplePlatform :: platform where
  "samplePlatform =
     \<lparr>cacheKey = ''events'',
      getTime = (\<lambda>s. if s = ''2030-01-01T00:00:00.000Z'' then Some 1893456000000
                     else if s = ''2031-01-01T00:00:00.000Z'' then Some 1924992000000
                     else if s = ''2020-01-01T00:00:00.000Z'' then Some 1577836800000
                     else None),
      stringify = (\<lambda>xs. ''['' @ concat (map (\<lambda>e. id' e @ '';'') xs) @ '']''),
      parse = (\<lambda>s. if s = ''[e1;e3;]''
                     then Some [sampleEvent ''e1'' ''2030-01-01T00:00:00.000Z'',
                                sampleEvent ''e3'' ''2031-01-01T00:00:00.000Z'']
                     else if s = ''[]'' then Some []
                     else None)\<rparr>"

text \<open>
  The remote list of the sample runs: two events after the clock reading
  \<open>1800000000000\<close> and one before it.
\<close>

definition sampleRemote :: "event list" where
  "sampleRemote =
     [sampleEvent ''e1'' ''2030-01-01T00:00:00.000Z'',
      sampleEvent ''e2'' ''2020-01-01T00:00:00.000Z'',
      sampleEvent ''e3'' ''2031-01-01T00:00:00.000Z'']"

definition sampleNetwork :: "bool option promise \<Rightarrow> event list response promise \<Rightarrow> network" where
  "sampleNetwork probe resp =
     \<lparr>netInfo = probe, listResponse = resp, clock = (\<lambda>i. 1800000000000), writable = True\<rparr>"

text \<open>
  Two events with one date, and a connected, successful call during which the clock
  advances by a millisecond from one reading to the next, the first reading being the
  date of the two events.
\<close>

definition sampleTwins :: "event list" where
  "sampleTwins =
     [sampleEvent ''e1'' ''2030-01-01T00:00:00.000Z'',
      sampleEvent ''e2'' ''2030-01-01T00:00:00.000Z'']"

definition tickingNetwork :: "event list \<Rightarrow> network" where
  "tickingNetwork data =
     \<lparr>netInfo = Resolved (Some True),
      listResponse = Resolved \<lparr>ok = True, json = Resolved data\<rparr>,
      clock = (\<lambda>i. 1893456000000 + int i), writable = True\<rparr>"

text \<open>
  A draft that passes every check of the form, with the position the screen was opened
  with; the ISO string of its date; and a picked asset with the attached content given.
\<close>

definition sampleDraft :: "position option \<Rightarrow> form" where
  "sampleDraft p =
     \<lparr>name = ''Beach cleanup'', about = ''Bring gloves'', volNeeded = ''4'',
      date = Some 1900000000000, imageUrl = Some ''https://i.ibb.co/p.png'', position = p\<rparr>"

definition sampleISO :: "int \<Rightarrow> string" where
  "sampleISO t = (if t = 1900000000000 then ''2030-03-17T17:46:40.000Z'' else [])"

definition sampleAsset :: "string option \<Rightarrow> asset" where
  "sampleAsset b = \<lparr>uri = ''file:///cache/p.png'', fileName = None, base64 = b\<rparr>"

section \<open>Properties of EventDetails\<close>

text \<open>
  Claim C5. For every event and every user (a non-empty user id), exactly one status is
  displayed, in this order of priority: \<open>Volunteered\<close> when the user is among the
  event's volunteers, whether the team is full or not; else \<open>TeamFull\<close> when the
  number of volunteers has reached \<open>volunteersNeeded\<close>; else \<open>Open\<close> with the current
  count and the number needed. So a user who has volunteered never sees \<open>Open\<close> or
  \<open>TeamFull\<close>.
\<close>

theorem status_priority:
  assumes "u \<noteq> []"
  shows "render False (Some e) (Some u) =
           Details (if u \<in> set (volunteersIds e) then Volunteered
                    else if volunteersNeeded e \<le> of_nat (length (volunteersIds e))
                    then TeamFull
                    else Open (length (volunteersIds e)) (volunteersNeeded e))
         \<and> (isVolunteered (Some e) (Some u) \<longrightarrow>
              render False (Some e) (Some u) = Details Volunteered
              \<and> render False (Some e) (Some u) \<noteq> Details TeamFull
              \<and> (\<forall>k n. render False (Some e) (Some u) \<noteq> Details (Open k n)))"
  using assms by (simp add: render_def statusBox_def isVolunteered_def isFull_def)

theorem status_priority_witness:
  "render False (Some (sampleEvent ''e1'' [])) (Some ''u1'') = Details Volunteered
   \<and> render False (Some (sampleEvent ''e1'' [])) (Some ''u2'') = Details (Open 1 2)
   \<and> render False (Some ((sampleEvent ''e1'' [])\<lparr>volunteersIds := [''u1'', ''u2'']\<rparr>))
        (Some ''u3'') = Details TeamFull
   \<and> render False (Some ((sampleEvent ''e1'' [])\<lparr>volunteersIds := [''u1'', ''u2'']\<rparr>))
        (Some ''u2'') = Details Volunteered"
  using status_priority [of "''u1''" "sampleEvent ''e1'' []"]
    status_priority [of "''u2''" "sampleEvent ''e1'' []"]
    status_priority [of "''u3''" "(sampleEvent ''e1'' [])\<lparr>volunteersIds := [''u1'', ''u2'']\<rparr>"]
    status_priority [of "''u2''" "(sampleEvent ''e1'' [])\<lparr>volunteersIds := [''u1'', ''u2'']\<rparr>"]
  by (simp add: sampleEvent_def)

text \<open>
  Claim C6. For a user who is already among the event's volunteers, or an event that
  is full, \<open>handleVolunteer\<close> does nothing: the event is unchanged, no alert is raised
  and no request is sent. So a second call that sees the event the first call left
  sends no request and leaves that event as it is, whatever its own request would have
  met, once the first call's request resolved; and, the two requests meeting the same
  outcome, two calls in sequence leave the event one call leaves.
\<close>

theorem volunteer_noop_idempotent:
  "(u \<noteq> [] \<and> (u \<in> set (volunteersIds e)
       \<or> volunteersNeeded e \<le> of_nat (length (volunteersIds e))) \<longrightarrow>
      handleVolunteer (Some e) (Some u) p = \<lparr>shown = Some e, alerts = [], patches = []\<rparr>)
   \<and> shown (handleVolunteer (shown (handleVolunteer ev userId (Resolved r))) userId p2)
       = shown (handleVolunteer ev userId (Resolved r))
   \<and> patches (handleVolunteer (shown (handleVolunteer ev userId (Resolved r))) userId p2) = []
   \<and> shown (handleVolunteer (shown (handleVolunteer ev userId q)) userId q)
       = shown (handleVolunteer ev userId q)"
  by (auto simp: handleVolunteer_def isVolunteered_def isFull_def Let_def
      split: option.splits promise.splits)

theorem volunteer_noop_idempotent_witness:
  "handleVolunteer (Some (sampleEvent ''e1'' [])) (Some ''u1'') (Resolved \<lparr>ok = True, json = Resolved ()\<rparr>)
     = \<lparr>shown = Some (sampleEvent ''e1'' []), alerts = [], patches = []\<rparr>
   \<and> handleVolunteer (Some ((sampleEvent ''e1'' [])\<lparr>volunteersIds := [''u1'', ''u2'']\<rparr>))
        (Some ''u3'') (Resolved \<lparr>ok = True, json = Resolved ()\<rparr>)
     = \<lparr>shown = Some ((sampleEvent ''e1'' [])\<lparr>volunteersIds := [''u1'', ''u2'']\<rparr>),
        alerts = [], patches = []\<rparr>"
  using volunteer_noop_idempotent
      [of "''u1''" "sampleEvent ''e1'' []" "Resolved \<lparr>ok = True, json = Resolved ()\<rparr>",
       THEN conjunct1]
    volunteer_noop_idempotent
      [of "''u3''" "(sampleEvent ''e1'' [])\<lparr>volunteersIds := [''u1'', ''u2'']\<rparr>"
          "Resolved \<lparr>ok = True, json = Resolved ()\<rparr>", THEN conjunct1]
  by (simp add: sampleEvent_def)

text \<open>
  Claim C7. For a non-empty user id that is not among the event's volunteers and an
  event that is not full, a call of \<open>handleVolunteer\<close> whose request resolves leaves
  the event with the user id appended to \<open>volunteersIds\<close>: the ids that were there
  keep their order, and no duplicate appears where there was none. The request carries
  the same list. With two volunteers needed and \<open>[u1]\<close> signed up, \<open>u2\<close> gives
  \<open>[u1, u2]\<close>.
\<close>

theorem volunteer_appends:
  assumes "u \<noteq> []" and "u \<notin> set (volunteersIds e)"
    and "of_nat (length (volunteersIds e)) < volunteersNeeded e"
  shows "handleVolunteer (Some e) (Some u) (Resolved r) =
           \<lparr>shown = Some (e\<lparr>volunteersIds := volunteersIds e @ [u]\<rparr>),
            alerts = [(''Success'', ''You have volunteered for this event!'')],
            patches = [(id' e, volunteersIds e @ [u])]\<rparr>
         \<and> (distinct (volunteersIds e) \<longrightarrow> distinct (volunteersIds e @ [u]))"
  using assms by (simp add: handleVolunteer_def isVolunteered_def isFull_def Let_def)

theorem volunteer_appends_witness:
  "handleVolunteer (Some (sampleEvent ''e1'' [])) (Some ''u2'')
       (Resolved \<lparr>ok = True, json = Resolved ()\<rparr>)
     = \<lparr>shown = Some ((sampleEvent ''e1'' [])\<lparr>volunteersIds := [''u1'', ''u2'']\<rparr>),
        alerts = [(''Success'', ''You have volunteered for this event!'')],
        patches = [(''e1'', [''u1'', ''u2''])]\<rparr>
   \<and> distinct [''u1'', ''u2'']"
  using volunteer_appends
      [of "''u2''" "sampleEvent ''e1'' []" "\<lparr>ok = True, json = Resolved ()\<rparr>"]
  by (simp add: sampleEvent_def)

text \<open>
  A request that rejects leaves the event as it was and raises the error alert.
\<close>

lemma handleVolunteer_rejected:
  "shown (handleVolunteer ev userId Rejected) = ev
   \<and> set (alerts (handleVolunteer ev userId Rejected))
       \<subseteq> {(''Login required'', ''You must log in to volunteer.''),
          (''Error'', ''Could not update volunteering status.'')}"
  by (simp add: handleVolunteer_def Let_def split: option.splits)

text \<open>
  Claim C1. When the PATCH fails, the event on screen is to stay as it was and the
  failure is to be signalled. A request that rejects does so (\<open>handleVolunteer_rejected\<close>).
  A response with a non-success HTTP status does not: the handler never reads the
  response, so with two volunteers needed and \<open>[u1]\<close> signed up, \<open>u2\<close> and a response
  that is not \<open>ok\<close>, the event on screen gains \<open>u2\<close> and the success alert is raised.
\<close>

theorem handleVolunteer_http_error:
  "handleVolunteer (Some (sampleEvent ''e1'' [])) (Some ''u2'')
       (Resolved \<lparr>ok = False, json = Rejected :: unit promise\<rparr>)
     = \<lparr>shown = Some ((sampleEvent ''e1'' [])\<lparr>volunteersIds := [''u1'', ''u2'']\<rparr>),
        alerts = [(''Success'', ''You have volunteered for this event!'')],
        patches = [(''e1'', [''u1'', ''u2''])]\<rparr>"
  by (simp add: handleVolunteer_def isVolunteered_def isFull_def sampleEvent_def Let_def)

section \<open>Properties of EventsMap\<close>

text \<open>
  While the clock reads \<open>t\<close> throughout the filter, the events kept are those that
  \<open>filter\<close> keeps at \<open>t\<close>.
\<close>

lemma futureEvents_steady:
  "(\<And>j. i \<le> j \<Longrightarrow> j < i + length es \<Longrightarrow> clk j = t) \<Longrightarrow>
     futureEvents P clk i es = filter (notPast P t) es"
proof (induction es arbitrary: i)
  case Nil
  show ?case by simp
next
  case (Cons e es)
  have here: "clk i = t" using Cons.prems [of i] by simp
  have rest: "futureEvents P clk (Suc i) es = filter (notPast P t) es"
    using Cons.prems by (intro Cons.IH) simp_all
  show ?case by (simp add: here rest)
qed

text \<open>
  The events kept are those that pass the comparison at the reading taken for them:
  the reading numbered by their place in the list.
\<close>

lemma futureEvents_readings:
  "futureEvents P clk i es =
     map fst (filter (\<lambda>(e, j). notPast P (clk j) e) (zip es [i..<i + length es]))"
proof (induction es arbitrary: i)
  case Nil
  show ?case by simp
next
  case (Cons e es)
  have "[i..<i + length (e # es)] = i # [Suc i..<Suc i + length es]"
    by (subst upt_rec) simp
  then show ?case by (simp add: Cons)
qed

text \<open>
  Claim C3, as the code has it. When the probe reports a connection, the GET of the
  event list succeeds with a readable body and the cache write resolves, the events
  shown are exactly the events of the remote list whose \<open>dateTime\<close> is not earlier
  than the clock reading taken when the filter examines them (the clock is read once
  per event), in the order of the remote list, and the value under the cache key is
  replaced by the JSON encoding of exactly that list. No alert is raised. When every
  reading of the call is the one instant \<open>t\<close>, the list is the remote list filtered at
  \<open>t\<close>.
\<close>

theorem fetchEvents_connected_readings:
  assumes "netInfo W = Resolved (Some True)"
    and "listResponse W = Resolved r" and "ok r" and "json r = Resolved data"
    and "writable W"
  shows "fetchEvents P W st =
           \<lparr>after = \<lparr>events = futureEvents P (clock W) 0 data,
                      store = (store st)(cacheKey P \<mapsto> stringify P (futureEvents P (clock W) 0 data))\<rparr>,
            raised = [], uncaught = False\<rparr>
       \<and> futureEvents P (clock W) 0 data =
           map fst (filter (\<lambda>(e, i). notPast P (clock W i) e) (zip data [0..<length data]))
       \<and> ((\<forall>i<length data. clock W i = t) \<longrightarrow>
            futureEvents P (clock W) 0 data = filter (notPast P t) data)"
proof -
  have run: "fetchEvents P W st =
           \<lparr>after = \<lparr>events = futureEvents P (clock W) 0 data,
                      store = (store st)(cacheKey P \<mapsto> stringify P (futureEvents P (clock W) 0 data))\<rparr>,
            raised = [], uncaught = False\<rparr>"
    using assms by (simp add: fetchEvents_def tryBlock_def Let_def)
  have each: "futureEvents P (clock W) 0 data =
           map fst (filter (\<lambda>(e, i). notPast P (clock W i) e) (zip data [0..<length data]))"
    using futureEvents_readings [of P "clock W" 0 data] by simp
  have steady: "futureEvents P (clock W) 0 data = filter (notPast P t) data"
    if "\<forall>i<length data. clock W i = t"
    using that by (intro futureEvents_steady) simp_all
  show ?thesis using run each steady by blast
qed

theorem fetchEvents_connected_readings_witness:
  "events (after (fetchEvents samplePlatform
       (sampleNetwork (Resolved (Some True)) (Resolved \<lparr>ok = True, json = Resolved sampleRemote\<rparr>))
       \<lparr>events = [], store = Map.empty\<rparr>))
     = [sampleEvent ''e1'' ''2030-01-01T00:00:00.000Z'', sampleEvent ''e3'' ''2031-01-01T00:00:00.000Z'']
   \<and> store (after (fetchEvents samplePlatform
       (sampleNetwork (Resolved (Some True)) (Resolved \<lparr>ok = True, json = Resolved sampleRemote\<rparr>))
       \<lparr>events = [], store = Map.empty\<rparr>)) ''events'' = Some ''[e1;e3;]''"
  using fetchEvents_connected_readings
      [of "sampleNetwork (Resolved (Some True)) (Resolved \<lparr>ok = True, json = Resolved sampleRemote\<rparr>)"
          "\<lparr>ok = True, json = Resolved sampleRemote\<rparr>" sampleRemote
          samplePlatform "\<lparr>events = [], store = Map.empty\<rparr>", THEN conjunct1]
  by (simp add: sampleNetwork_def sampleRemote_def samplePlatform_def sampleEvent_def notPast_def)

text \<open>
  When the clock advances between two readings, the list shown need not be the remote
  list filtered at the time of the call: of two events dated at the first reading, the
  first is kept and the second, examined a millisecond later, is dropped, while
  filtering at the first reading keeps both and filtering at the second keeps none.
\<close>

theorem fetchEvents_ticking_counterexample:
  "events (after (fetchEvents samplePlatform (tickingNetwork sampleTwins)
       \<lparr>events = [], store = Map.empty\<rparr>))
     = [sampleEvent ''e1'' ''2030-01-01T00:00:00.000Z'']
   \<and> events (after (fetchEvents samplePlatform (tickingNetwork sampleTwins)
       \<lparr>events = [], store = Map.empty\<rparr>))
     \<noteq> filter (notPast samplePlatform (clock (tickingNetwork sampleTwins) 0)) sampleTwins
   \<and> filter (notPast samplePlatform 1893456000000) sampleTwins = sampleTwins
   \<and> filter (notPast samplePlatform 1893456000001) sampleTwins = []"
  by (simp add: fetchEvents_def tryBlock_def Let_def tickingNetwork_def sampleTwins_def
      samplePlatform_def sampleEvent_def notPast_def)

text \<open>So the list shown there is the remote list filtered at no instant at all.\<close>

lemma fetchEvents_ticking_no_instant:
  "events (after (fetchEvents samplePlatform (tickingNetwork sampleTwins)
       \<lparr>events = [], store = Map.empty\<rparr>))
     \<noteq> filter (notPast samplePlatform t) sampleTwins"
proof -
  have shown: "length (events (after (fetchEvents samplePlatform (tickingNetwork sampleTwins)
       \<lparr>events = [], store = Map.empty\<rparr>))) = 1"
    by (simp add: fetchEvents_def tryBlock_def Let_def tickingNetwork_def sampleTwins_def
        samplePlatform_def sampleEvent_def notPast_def)
  have "length (filter (notPast samplePlatform t) sampleTwins) \<noteq> 1"
    by (simp add: sampleTwins_def samplePlatform_def sampleEvent_def notPast_def)
  then show ?thesis using shown by metis
qed

text \<open>
  Claim C4. When the probe reports no connection, or the connected path throws (the
  probe or the request rejects, the HTTP status is not a success, the body cannot be
  read, or the cache write rejects), the value under the cache key is never written.
  A cached string that is present and decodes is decoded and shown as it is, with no
  alert; with nothing cached, the alert that no data is available is raised (the
  offline one when the probe reported no connection, the error one otherwise) and,
  unless it was the cache write that failed, the events on screen stay as they were.
\<close>

theorem fetchEvents_fallback:
  assumes "\<not> succeeded W"
  shows "store (after (fetchEvents P W st)) = store st
       \<and> (\<forall>c xs. store st (cacheKey P) = Some c \<and> c \<noteq> [] \<and> parse P c = Some xs \<longrightarrow>
            events (after (fetchEvents P W st)) = xs
            \<and> raised (fetchEvents P W st) = []
            \<and> \<not> uncaught (fetchEvents P W st))
       \<and> (\<not> truthy (store st (cacheKey P)) \<longrightarrow>
            raised (fetchEvents P W st) =
              [if (\<exists>c. netInfo W = Resolved c \<and> c \<noteq> Some True)
               then (''Offline'', ''No cached events available.'')
               else (''Error'', ''Unable to load events.'')]
            \<and> \<not> uncaught (fetchEvents P W st)
            \<and> (writable W \<longrightarrow> events (after (fetchEvents P W st)) = events st))"
  using assms
  by (auto simp: fetchEvents_def tryBlock_def succeeded_def loadCached_def Let_def
      split: promise.splits if_splits option.splits)

theorem fetchEvents_fallback_witness:
  "events (after (fetchEvents samplePlatform (sampleNetwork (Resolved (Some False)) Rejected)
       \<lparr>events = [], store = [''events'' \<mapsto> ''[e1;e3;]'']\<rparr>))
     = [sampleEvent ''e1'' ''2030-01-01T00:00:00.000Z'', sampleEvent ''e3'' ''2031-01-01T00:00:00.000Z'']
   \<and> events (after (fetchEvents samplePlatform
       (sampleNetwork (Resolved (Some True)) (Resolved \<lparr>ok = False, json = Rejected\<rparr>))
       \<lparr>events = [], store = [''events'' \<mapsto> ''[e1;e3;]'']\<rparr>))
     = [sampleEvent ''e1'' ''2030-01-01T00:00:00.000Z'', sampleEvent ''e3'' ''2031-01-01T00:00:00.000Z'']
   \<and> raised (fetchEvents samplePlatform (sampleNetwork (Resolved None) Rejected)
       \<lparr>events = [], store = Map.empty\<rparr>) = [(''Offline'', ''No cached events available.'')]
   \<and> raised (fetchEvents samplePlatform (sampleNetwork (Resolved (Some True)) Rejected)
       \<lparr>events = [], store = Map.empty\<rparr>) = [(''Error'', ''Unable to load events.'')]"
  using fetchEvents_fallback
      [of "sampleNetwork (Resolved (Some False)) Rejected" samplePlatform
          "\<lparr>events = [], store = [''events'' \<mapsto> ''[e1;e3;]'']\<rparr>"]
    fetchEvents_fallback
      [of "sampleNetwork (Resolved (Some True)) (Resolved \<lparr>ok = False, json = Rejected\<rparr>)"
          samplePlatform "\<lparr>events = [], store = [''events'' \<mapsto> ''[e1;e3;]'']\<rparr>"]
    fetchEvents_fallback
      [of "sampleNetwork (Resolved None) Rejected" samplePlatform
          "\<lparr>events = [], store = Map.empty\<rparr>"]
    fetchEvents_fallback
      [of "sampleNetwork (Resolved (Some True)) Rejected" samplePlatform
          "\<lparr>events = [], store = Map.empty\<rparr>"]
  by (simp add: sampleNetwork_def samplePlatform_def succeeded_def)

text \<open>
  A call that falls back to the cache after a successful one shows exactly the events
  the successful call showed and wrote, for a codec that reads back what it writes.
\<close>

lemma succeeded_iff:
  "succeeded W \<longleftrightarrow>
     netInfo W = Resolved (Some True) \<and> writable W
     \<and> (\<exists>r data. listResponse W = Resolved r \<and> ok r \<and> json r = Resolved data)"
  by (auto simp: succeeded_def split: promise.splits)

lemma fetchEvents_succeeded:
  assumes "succeeded W"
  shows "\<exists>fut. fetchEvents P W st =
           \<lparr>after = \<lparr>events = fut, store = (store st)(cacheKey P \<mapsto> stringify P fut)\<rparr>,
            raised = [], uncaught = False\<rparr>"
proof -
  obtain r data where "netInfo W = Resolved (Some True)" "writable W"
    "listResponse W = Resolved r" "ok r" "json r = Resolved data"
    using assms unfolding succeeded_iff by blast
  then have "fetchEvents P W st =
      \<lparr>after = \<lparr>events = futureEvents P (clock W) 0 data,
                 store = (store st)(cacheKey P \<mapsto> stringify P (futureEvents P (clock W) 0 data))\<rparr>,
       raised = [], uncaught = False\<rparr>"
    by (simp add: fetchEvents_def tryBlock_def Let_def)
  then show ?thesis by blast
qed

lemma loadCached_hit:
  "store st (cacheKey P) = Some c \<Longrightarrow> c \<noteq> [] \<Longrightarrow> parse P c = Some xs \<Longrightarrow>
     loadCached P a st = Some (st\<lparr>events := xs\<rparr>, [])"
  by (simp add: loadCached_def)

lemma tryBlock_failed:
  assumes "\<not> succeeded W"
  shows "(\<exists>st1. tryBlock P W st = Threw st1 \<and> store st1 = store st)
       \<or> (\<exists>c. netInfo W = Resolved c \<and> c \<noteq> Some True
             \<and> tryBlock P W st =
                 (case loadCached P (''Offline'', ''No cached events available.'') st of
                    None \<Rightarrow> Threw st | Some (st', al) \<Rightarrow> Completed st' al))"
  using assms unfolding succeeded_iff
  by (auto simp: tryBlock_def Let_def split: promise.splits)

lemma fetchEvents_cached:
  assumes "\<not> succeeded W" and "store st (cacheKey P) = Some c" and "c \<noteq> []"
    and "parse P c = Some xs"
  shows "fetchEvents P W st = \<lparr>after = st\<lparr>events := xs\<rparr>, raised = [], uncaught = False\<rparr>"
proof -
  consider st1 where "tryBlock P W st = Threw st1" "store st1 = store st"
    | "tryBlock P W st = Completed (st\<lparr>events := xs\<rparr>) []"
    using tryBlock_failed [OF assms(1), of P st] loadCached_hit [OF assms(2-4)]
    by auto
  then show ?thesis
  proof cases
    case 1
    have "loadCached P (''Error'', ''Unable to load events.'') st1 = Some (st1\<lparr>events := xs\<rparr>, [])"
      using assms(2-4) 1(2) by (intro loadCached_hit) simp_all
    moreover have "st1\<lparr>events := xs\<rparr> = st\<lparr>events := xs\<rparr>"
      using 1(2) by simp
    ultimately show ?thesis by (simp add: fetchEvents_def 1(1))
  next
    case 2
    then show ?thesis by (simp add: fetchEvents_def)
  qed
qed

lemma fetchEvents_round_trip:
  assumes "succeeded W1" and "\<not> succeeded W2"
    and "\<And>xs. parse P (stringify P xs) = Some xs" and "\<And>xs. stringify P xs \<noteq> []"
  shows "after (fetchEvents P W2 (after (fetchEvents P W1 st))) = after (fetchEvents P W1 st)"
proof -
  obtain fut where f: "fetchEvents P W1 st =
      \<lparr>after = \<lparr>events = fut, store = (store st)(cacheKey P \<mapsto> stringify P fut)\<rparr>,
       raised = [], uncaught = False\<rparr>"
    using fetchEvents_succeeded [OF assms(1)] by blast
  show ?thesis
    unfolding f
    by (subst fetchEvents_cached [OF assms(2), where c = "stringify P fut" and xs = fut])
       (simp_all add: assms(3,4))
qed

section \<open>Properties of AddEventForm\<close>

subsection \<open>The picked image\<close>

lemma splitOn_not_Nil: "splitOn sep s \<noteq> []"
  by (induction s) (auto split: list.splits)

lemma splitOn_absent: "sep \<notin> set s \<Longrightarrow> splitOn sep s = [s]"
  by (induction s) auto

lemma splitOn_present: "sep \<in> set s \<Longrightarrow> \<exists>p q qs. splitOn sep s = p # q # qs"
proof (induction s)
  case Nil
  then show ?case by simp
next
  case (Cons c cs)
  show ?case
  proof (cases "c = sep")
    case True
    then show ?thesis using splitOn_not_Nil [of sep cs]
      by (cases "splitOn sep cs") auto
  next
    case False
    then have "sep \<in> set cs" using Cons.prems by simp
    then obtain p q qs where "splitOn sep cs = p # q # qs" using Cons.IH by blast
    then show ?thesis using False by simp
  qed
qed

lemma last_splitOn: "last (splitOn sep s) = rev (takeWhile (\<lambda>c. c \<noteq> sep) (rev s))"
proof (induction s)
  case Nil
  show ?case by simp
next
  case (Cons c cs)
  show ?case
  proof (cases "sep \<in> set cs")
    case True
    then obtain p q qs where sp: "splitOn sep cs = p # q # qs"
      using splitOn_present by blast
    have "last (splitOn sep (c # cs)) = last (splitOn sep cs)"
      by (simp add: sp)
    moreover have "takeWhile (\<lambda>c. c \<noteq> sep) (rev cs @ [c]) = takeWhile (\<lambda>c. c \<noteq> sep) (rev cs)"
      using True by (auto simp: takeWhile_append)
    ultimately show ?thesis using Cons by simp
  next
    case False
    then have sp: "splitOn sep cs = [cs]" by (rule splitOn_absent)
    have tw: "takeWhile (\<lambda>c. c \<noteq> sep) (rev cs) = rev cs"
      using False by auto
    show ?thesis
    proof (cases "c = sep")
      case True
      then show ?thesis using False by (simp add: sp takeWhile_append tw)
    next
      case False
      then show ?thesis using \<open>sep \<notin> set cs\<close> by (simp add: sp takeWhile_append tw)
    qed
  qed
qed

lemma afterLastComma_absent:
  assumes "CHR '','' \<notin> set s"
  shows "afterLastComma s = s"
proof -
  have keep: "takeWhile (\<lambda>c. c \<noteq> CHR '','') (rev s) = rev s"
    using assms by auto
  show ?thesis unfolding afterLastComma_def keep by (rule rev_rev_ident)
qed

lemma contentEncoding_eq:
  "contentEncoding rd a =
     (case base64 a of
        None \<Rightarrow> rd (uri a)
      | Some s \<Rightarrow> if afterLastComma s = [] then rd (uri a) else Resolved (afterLastComma s))"
proof (cases "base64 a")
  case None
  then show ?thesis by (simp add: contentEncoding_def)
next
  case (Some s)
  show ?thesis
  proof (cases "CHR '','' \<in> set s")
    case True
    then have "s \<noteq> []" by auto
    then show ?thesis
      using True Some splitOn_not_Nil [of "CHR '',''" s]
      by (simp add: contentEncoding_def pop_def last_splitOn afterLastComma_def)
  next
    case False
    then show ?thesis
      using Some by (simp add: contentEncoding_def afterLastComma_absent)
  qed
qed

lemma afterLastComma_one:
  assumes "length (filter (\<lambda>c. c = CHR '','') s) \<le> 1"
  shows "afterLastComma s = stripToFirstComma s"
proof (cases "CHR '','' \<in> set s")
  case False
  then show ?thesis by (simp add: afterLastComma_absent stripToFirstComma_def)
next
  case True
  then obtain a b where s: "s = a @ CHR '','' # b" and a: "CHR '','' \<notin> set a"
    by (meson split_list_first)
  have b: "CHR '','' \<notin> set b"
  proof
    assume "CHR '','' \<in> set b"
    then have "filter (\<lambda>c. c = CHR '','') b \<noteq> []"
      by (simp add: filter_empty_conv)
    then have "1 \<le> length (filter (\<lambda>c. c = CHR '','') b)"
      by (cases "filter (\<lambda>c. c = CHR '','') b") simp_all
    then show False using assms by (simp add: s)
  qed
  have "afterLastComma s = b"
    using b by (auto simp: afterLastComma_def s takeWhile_append)
  moreover have "stripToFirstComma s = b"
    using a by (simp add: stripToFirstComma_def s dropWhile_append)
  ultimately show ?thesis by simp
qed

text \<open>
  Claim C8. The string attached to a picked asset is base64 text, or a data URI whose
  prefix ends with the comma before the base64 text: it has at most one comma. For
  every such asset the content encoding uses the attached content when there is some,
  a prefix up to and including the first comma removed if there is a comma; when
  there is no attached content it reads the asset from storage as base64, and what a
  read that resolves gives is the payload.
\<close>

theorem contentEncoding_attached_or_storage:
  assumes "length (filter (\<lambda>c. c = CHR '','') s) \<le> 1"
  shows "(base64 a = Some s \<and> stripToFirstComma s \<noteq> [] \<longrightarrow>
            contentEncoding rd a = Resolved (stripToFirstComma s))
       \<and> (\<not> truthy (base64 a) \<longrightarrow> contentEncoding rd a = rd (uri a))
       \<and> (\<not> truthy (base64 a) \<and> rd (uri a) = Resolved p \<longrightarrow> contentEncoding rd a = Resolved p)"
proof -
  have one: "afterLastComma s = stripToFirstComma s"
    using assms by (rule afterLastComma_one)
  have attached: "contentEncoding rd a = Resolved (stripToFirstComma s)"
    if "base64 a = Some s" "stripToFirstComma s \<noteq> []"
    using that by (simp add: contentEncoding_eq one)
  have absent: "contentEncoding rd a = rd (uri a)" if "\<not> truthy (base64 a)"
    using that by (cases "base64 a") (simp_all add: contentEncoding_def)
  show ?thesis using attached absent by simp
qed

theorem contentEncoding_attached_or_storage_witness:
  "contentEncoding (\<lambda>u. Resolved ''RklMRQ=='') (sampleAsset (Some ''data:image/png;base64,QUJD''))
       = Resolved ''QUJD''
   \<and> contentEncoding (\<lambda>u. Resolved ''RklMRQ=='') (sampleAsset (Some ''QUJD'')) = Resolved ''QUJD''
   \<and> contentEncoding (\<lambda>u. Resolved ''RklMRQ=='') (sampleAsset None) = Resolved ''RklMRQ==''"
  using contentEncoding_attached_or_storage
      [of "''data:image/png;base64,QUJD''" "sampleAsset (Some ''data:image/png;base64,QUJD'')"
          "\<lambda>u. Resolved ''RklMRQ==''", THEN conjunct1]
    contentEncoding_attached_or_storage
      [of "''QUJD''" "sampleAsset (Some ''QUJD'')" "\<lambda>u. Resolved ''RklMRQ==''", THEN conjunct1]
    contentEncoding_attached_or_storage
      [of "''QUJD''" "sampleAsset None" "\<lambda>u. Resolved ''RklMRQ==''" "''RklMRQ==''",
       THEN conjunct2, THEN conjunct2]
  by (simp add: sampleAsset_def stripToFirstComma_def)

subsection \<open>Numbers\<close>

text \<open>
  \<open>ilog2\<close> is the binary exponent of a positive rational, so an integer below
  \<open>2 ^ 53\<close> has its 53 bits and is not changed by the rounding.
\<close>

lemma bitLength_bounds:
  "0 < n \<Longrightarrow> 2 ^ (bitLength n - 1) \<le> n \<and> n < 2 ^ bitLength n"
proof (induction n rule: bitLength.induct)
  case (1 n)
  show ?case
  proof (cases "n div 2 = 0")
    case True
    then have "n = 1" using "1.prems" by linarith
    then show ?thesis by (simp add: bitLength.simps [of "Suc 0"] bitLength.simps [of 0])
  next
    case False
    then have pos: "0 < n div 2" by simp
    have ih: "2 ^ (bitLength (n div 2) - 1) \<le> n div 2 \<and> n div 2 < 2 ^ bitLength (n div 2)"
      using "1.IH" "1.prems" pos by simp
    have bl: "bitLength n = Suc (bitLength (n div 2))"
      using "1.prems" by (subst bitLength.simps) simp
    have b1: "0 < bitLength (n div 2)"
      using pos by (subst bitLength.simps) simp
    then obtain b where b: "bitLength (n div 2) = Suc b"
      by (cases "bitLength (n div 2)") simp_all
    have "2 * 2 ^ b \<le> n" using ih b by simp linarith
    moreover have "n < 2 * 2 ^ Suc b" using ih b by simp linarith
    ultimately show ?thesis by (simp add: bl b)
  qed
qed

lemma pow2_diff: "pow2 (int x - int y) = 2 ^ x / 2 ^ y"
proof (cases "y \<le> x")
  case True
  then have "nat (int x - int y) = x - y" by simp
  then show ?thesis using True by (simp add: pow2_def power_diff)
next
  case False
  then have "nat (- (int x - int y)) = y - x" by simp
  moreover have "(2::rat) ^ y = 2 ^ (y - x) * 2 ^ x"
    using False by (simp flip: power_add)
  ultimately show ?thesis using False by (simp add: pow2_def)
qed

lemma pow2_Suc: "pow2 (k + 1) = 2 * pow2 k"
proof -
  consider "0 \<le> k" | "k = - 1" | "k < - 1" by linarith
  then show ?thesis
  proof cases
    case 1
    then show ?thesis by (simp add: pow2_def nat_add_distrib)
  next
    case 2
    then show ?thesis by (simp add: pow2_def)
  next
    case 3
    then have "nat (- k) = Suc (nat (- (k + 1)))" by simp
    then show ?thesis using 3 by (simp add: pow2_def)
  qed
qed

lemma pow2_pos: "0 < pow2 k"
  by (simp add: pow2_def)

lemma ilog2_bounds:
  assumes "0 < a"
  shows "pow2 (ilog2 a) \<le> a \<and> a < pow2 (ilog2 a + 1)"
proof -
  obtain n d where q: "quotient_of a = (n, d)" by (cases "quotient_of a")
  have d: "0 < d" using q by (rule quotient_of_denom_pos)
  have a: "a = of_int n / of_int d" using q by (rule quotient_of_div)
  have n: "0 < n" using assms d a by (simp add: zero_less_divide_iff)
  define bn where "bn = bitLength (nat n)"
  define bd where "bd = bitLength (nat d)"
  define k where "k = int bn - int bd"
  have nb: "2 ^ (bn - 1) \<le> nat n \<and> nat n < 2 ^ bn"
    unfolding bn_def using n by (intro bitLength_bounds) simp
  have db: "2 ^ (bd - 1) \<le> nat d \<and> nat d < 2 ^ bd"
    unfolding bd_def using d by (intro bitLength_bounds) simp
  have bn1: "0 < bn" using nb n by (cases bn) auto
  have bd1: "0 < bd" using db d by (cases bd) auto
  have n_lo: "(2::rat) ^ (bn - 1) \<le> of_int n"
  proof -
    have "int (2 ^ (bn - 1)) \<le> int (nat n)" using nb by (simp only: of_nat_le_iff)
    then have "(2::int) ^ (bn - 1) \<le> n" using n by simp
    then have "of_int ((2::int) ^ (bn - 1)) \<le> (of_int n :: rat)" by (simp only: of_int_le_iff)
    then show ?thesis by simp
  qed
  have n_hi: "of_int n < (2::rat) ^ bn"
  proof -
    have "int (nat n) < int (2 ^ bn)" using nb by (simp only: of_nat_less_iff)
    then have "n < (2::int) ^ bn" using n by simp
    then have "(of_int n :: rat) < of_int ((2::int) ^ bn)" by (simp only: of_int_less_iff)
    then show ?thesis by simp
  qed
  have d_lo: "(2::rat) ^ (bd - 1) \<le> of_int d"
  proof -
    have "int (2 ^ (bd - 1)) \<le> int (nat d)" using db by (simp only: of_nat_le_iff)
    then have "(2::int) ^ (bd - 1) \<le> d" using d by simp
    then have "of_int ((2::int) ^ (bd - 1)) \<le> (of_int d :: rat)" by (simp only: of_int_le_iff)
    then show ?thesis by simp
  qed
  have d_hi: "of_int d < (2::rat) ^ bd"
  proof -
    have "int (nat d) < int (2 ^ bd)" using db by (simp only: of_nat_less_iff)
    then have "d < (2::int) ^ bd" using d by simp
    then have "(of_int d :: rat) < of_int ((2::int) ^ bd)" by (simp only: of_int_less_iff)
    then show ?thesis by simp
  qed
  have dpos: "(0::rat) < of_int d" using d by simp
  have upper: "a < pow2 (k + 1)"
  proof -
    have "a < 2 ^ bn / of_int d"
      unfolding a using n_hi dpos by (simp add: divide_strict_right_mono)
    also have "\<dots> \<le> 2 ^ bn / 2 ^ (bd - 1)"
      using d_lo by (simp add: frac_le)
    also have "\<dots> = pow2 (int bn - int (bd - 1))"
      by (simp only: pow2_diff)
    also have "int bn - int (bd - 1) = k + 1"
      using bd1 by (simp add: k_def)
    finally show ?thesis .
  qed
  have lower: "pow2 (k - 1) < a"
  proof -
    have "k - 1 = int (bn - 1) - int bd"
      using bn1 by (simp add: k_def of_nat_diff)
    then have "pow2 (k - 1) = pow2 (int (bn - 1) - int bd)"
      by (rule arg_cong)
    also have "\<dots> = 2 ^ (bn - 1) / 2 ^ bd"
      by (simp only: pow2_diff)
    also have "\<dots> < 2 ^ (bn - 1) / of_int d"
      using d_hi dpos by (simp add: frac_less2)
    also have "\<dots> \<le> a"
      unfolding a using n_lo dpos by (simp add: divide_right_mono)
    finally show ?thesis .
  qed
  have il: "ilog2 a = (if pow2 k \<le> a then k else k - 1)"
    by (simp add: ilog2_def q Let_def k_def bn_def bd_def)
  show ?thesis
  proof (cases "pow2 k \<le> a")
    case True
    then show ?thesis using upper by (simp add: il)
  next
    case False
    have "pow2 (k - 1 + 1) = pow2 k" by simp
    then show ?thesis using False lower by (simp add: il)
  qed
qed

lemma pow2_add_nat: "pow2 (j + int n) = 2 ^ n * pow2 j"
proof (induction n)
  case 0
  show ?case by simp
next
  case (Suc n)
  have "j + int (Suc n) = (j + int n) + 1" by simp
  then have "pow2 (j + int (Suc n)) = pow2 ((j + int n) + 1)"
    by (rule arg_cong)
  also have "\<dots> = 2 * pow2 (j + int n)" by (rule pow2_Suc)
  finally show ?case by (simp add: Suc)
qed

lemma pow2_mono:
  assumes "j \<le> k"
  shows "pow2 j \<le> pow2 k"
proof -
  have "k = j + int (nat (k - j))" using assms by simp
  then have "pow2 k = 2 ^ nat (k - j) * pow2 j"
    using pow2_add_nat [of j "nat (k - j)"] by simp
  moreover have "(1::rat) \<le> 2 ^ nat (k - j)" by simp
  ultimately show ?thesis
    using pow2_pos [of j] by (simp add: mult_le_cancel_right1)
qed

lemma roundHalfEven_of_int: "roundHalfEven (of_int z) = z"
  by (simp add: roundHalfEven_def)

text \<open>An integer below \<open>2 ^ 53\<close> is a binary64 value: rounding leaves it as it is.\<close>

lemma toDouble_of_int:
  assumes "0 < k" and "k < 2 ^ 53"
  shows "toDouble (of_int k) = Fin (of_int k)"
proof -
  define a :: rat where "a = of_int k"
  define e where "e = ilog2 a"
  have apos: "0 < a" using assms(1) by (simp add: a_def)
  have b: "pow2 e \<le> a \<and> a < pow2 (e + 1)"
    unfolding e_def using apos by (rule ilog2_bounds)
  have a_lo: "pow2 0 \<le> a"
    using assms(1) by (simp add: a_def pow2_def)
  have a_hi: "a < pow2 53"
  proof -
    have "(of_int k :: rat) < of_int (2 ^ 53)" using assms(2) by (simp only: of_int_less_iff)
    then show ?thesis by (simp add: a_def pow2_def)
  qed
  have e_lo: "0 \<le> e"
  proof (rule ccontr)
    assume "\<not> 0 \<le> e"
    then have "e + 1 \<le> 0" by simp
    then have "pow2 (e + 1) \<le> pow2 0" by (rule pow2_mono)
    then show False using b a_lo by simp
  qed
  have e_hi: "e \<le> 52"
  proof (rule ccontr)
    assume "\<not> e \<le> 52"
    then have "53 \<le> e" by simp
    then have "pow2 53 \<le> pow2 e" by (rule pow2_mono)
    then show False using b a_hi by simp
  qed
  define j where "j = nat (52 - e)"
  have u: "pow2 (e - 52) = 1 / 2 ^ j"
  proof -
    have "e - 52 = int 0 - int j" using e_hi by (simp add: j_def)
    then have "pow2 (e - 52) = pow2 (int 0 - int j)" by (rule arg_cong)
    also have "\<dots> = 2 ^ 0 / 2 ^ j" by (simp only: pow2_diff)
    finally show ?thesis by simp
  qed
  have q: "a / pow2 (e - 52) = of_int (k * 2 ^ j)"
    by (simp add: u a_def)
  have m: "roundHalfEven (a / pow2 (e - 52)) = k * 2 ^ j"
    unfolding q by (rule roundHalfEven_of_int)
  have again: "of_int k * 2 ^ j * pow2 (e - 52) = a"
    by (simp add: u a_def)
  have mx: "max e (- 1022) = e" using e_lo by simp
  have "toDouble a = Fin a"
    using apos e_hi
    by (simp add: toDouble_def Let_def e_def [symmetric] mx m again)
  then show ?thesis by (simp add: a_def)
qed

lemma isDigit_iff: "isDigit c \<longleftrightarrow> 48 \<le> (of_char c :: nat) \<and> (of_char c :: nat) \<le> 57"
  by (auto simp: isDigit_def digitIn_def Let_def)

lemma digit_not_space: "isDigit c \<Longrightarrow> \<not> isWhiteSpace c"
  by (auto simp: isDigit_iff isWhiteSpace_def)

lemma digitsValue_digits:
  "list_all isDigit ds \<Longrightarrow> \<exists>n. digitsValue 10 acc ds = Some n"
proof (induction ds arbitrary: acc)
  case Nil
  show ?case by simp
next
  case (Cons c cs)
  then obtain d where "digitIn 10 c = Some d"
    by (auto simp: isDigit_def)
  then show ?case using Cons by simp
qed

text \<open>
  A non-empty string of decimal digits is read as the number its digits denote,
  rounded.
\<close>

lemma Number_digits:
  assumes "ds \<noteq> []" and "list_all isDigit ds" and "digitsValue 10 0 ds = Some n"
  shows "Number ds = toDouble (of_nat n)"
proof -
  obtain c cs where ds: "ds = c # cs" using assms(1) by (cases ds) auto
  have c: "isDigit c" using assms(2) ds by simp
  have all: "\<forall>x\<in>set ds. isDigit x" using assms(2) by (simp add: list_all_iff)
  have lead: "dropWhile isWhiteSpace ds = ds"
    using c ds by (simp add: digit_not_space)
  have "isDigit (last ds)" using all assms(1) by simp
  then have "\<not> isWhiteSpace (hd (rev ds))"
    using assms(1) by (simp add: hd_rev digit_not_space)
  then have "dropWhile isWhiteSpace (rev ds) = rev ds"
    using assms(1) by (cases "rev ds") auto
  then have t: "trim ds = ds" by (simp add: trim_def lead)
  have second: "\<And>x. x \<in> set (take 2 ds) \<Longrightarrow> isDigit x"
    using all by (meson in_set_takeD)
  have prefix: "take 2 ds \<noteq> [z, y]" if "\<not> isDigit y" for z y
  proof
    assume "take 2 ds = [z, y]"
    then have "y \<in> set (take 2 ds)" by simp
    then show False using second that by blast
  qed
  have nx: "take 2 ds \<noteq> ''0x''" "take 2 ds \<noteq> ''0X''" "take 2 ds \<noteq> ''0o''"
    "take 2 ds \<noteq> ''0O''" "take 2 ds \<noteq> ''0b''" "take 2 ds \<noteq> ''0B''"
    by (rule prefix, simp add: isDigit_iff)+
  have sign: "hd ds \<noteq> CHR ''-''" "hd ds \<noteq> CHR ''+''"
    using c ds by (auto simp: isDigit_iff)
  have inf: "ds \<noteq> ''Infinity''"
    using c ds by (auto simp: isDigit_iff)
  have tw: "takeWhile isDigit ds = ds" "dropWhile isDigit ds = []"
    using all by simp_all
  have ud: "unsignedDecimal ds = Some (Fin (of_nat n))"
    using assms(1,3) inf
    by (simp add: unsignedDecimal_def tw Let_def exponentPart_def pow10_def)
  show ?thesis
    using assms(1) nx sign
    by (simp add: Number_def t Let_def ud rounded_def)
qed

lemma isVolunteersValid_digits:
  assumes "ds \<noteq> []" and "list_all isDigit ds" and "digitsValue 10 0 ds = Some n"
    and "0 < n" and "n < 2 ^ 53"
  shows "isVolunteersValid ds"
proof -
  have "(0::int) < int n" "int n < 2 ^ 53" using assms(4,5) by simp_all
  then have "toDouble (of_int (int n)) = Fin (of_int (int n))"
    by (rule toDouble_of_int)
  then have "Number ds = Fin (of_nat n)"
    using Number_digits [OF assms(1-3)] by simp
  then show ?thesis
    using assms(4) by (simp add: isVolunteersValid_def isNaN_def)
qed

subsection \<open>Validation\<close>

lemma isVolunteersValid_iff:
  "isVolunteersValid s \<longleftrightarrow> (\<exists>k::int. 0 < k \<and> Number s = Fin (of_int k))"
proof (cases "Number s")
  case (Fin q)
  show ?thesis
  proof
    assume "isVolunteersValid s"
    then have "0 < q" and "q = of_int \<lfloor>q\<rfloor>"
      by (simp_all add: isVolunteersValid_def Fin isNaN_def)
    then have "0 < \<lfloor>q\<rfloor> \<and> Number s = Fin (of_int \<lfloor>q\<rfloor>)"
      using Fin by (metis of_int_0_less_iff)
    then show "\<exists>k::int. 0 < k \<and> Number s = Fin (of_int k)" by blast
  next
    assume "\<exists>k::int. 0 < k \<and> Number s = Fin (of_int k)"
    then show "isVolunteersValid s"
      by (auto simp: isVolunteersValid_def isNaN_def)
  qed
qed (simp_all add: isVolunteersValid_def isNaN_def)

text \<open>\<open>Number\<close> on some strings, as a JavaScript engine gives them.\<close>

lemma Number_empty: "Number [] = Fin 0"
  by code_simp

lemma Number_spaces: "Number '' 4 '' = Fin 4"
  by code_simp

lemma Number_exponent: "Number ''1e3'' = Fin 1000"
  by code_simp

lemma Number_hex: "Number ''0x10'' = Fin 16"
  by code_simp

lemma Number_Infinity: "Number ''Infinity'' = PosInf"
  by code_simp

lemma Number_trailing: "Number ''4abc'' = NaN"
  by code_simp

lemma Number_half: "Number ''.5'' = Fin (1 / 2)"
  by code_simp

lemma Number_4: "Number ''4'' = Fin 4"
  by code_simp

lemma isVolunteersValid_4: "isVolunteersValid ''4''"
  by (simp add: isVolunteersValid_def Number_4 isNaN_def)

lemma isVolunteersValid_0: "\<not> isVolunteersValid ''0''"
  by code_simp

lemma isVolunteersValid_minus_3: "\<not> isVolunteersValid ''-3''"
  by code_simp

lemma isVolunteersValid_2_5: "\<not> isVolunteersValid ''2.5''"
  by code_simp

lemma isVolunteersValid_abc: "\<not> isVolunteersValid ''abc''"
  by code_simp

text \<open>
  Claim C9. A string is accepted as the number of volunteers exactly when \<open>Number\<close>
  makes a positive integer of it: a string that is no number, zero, a negative number
  and a number with a fraction are rejected. \<open>0\<close>, \<open>-3\<close> and \<open>2.5\<close> are rejected, \<open>4\<close>
  is accepted.
\<close>

theorem isVolunteersValid_positive_integer:
  "(isVolunteersValid s \<longleftrightarrow> (\<exists>k::int. 0 < k \<and> Number s = Fin (of_int k)))
   \<and> \<not> isVolunteersValid ''0'' \<and> \<not> isVolunteersValid ''-3'' \<and> \<not> isVolunteersValid ''2.5''
   \<and> isVolunteersValid ''4'' \<and> \<not> isVolunteersValid ''abc''"
  using isVolunteersValid_iff [of s] isVolunteersValid_0 isVolunteersValid_minus_3
    isVolunteersValid_2_5 isVolunteersValid_4 isVolunteersValid_abc
  by blast

text \<open>
  What \<open>allValid\<close> checks: the name, the length of the description, the number of
  volunteers, the date and the image URL. The position is not among them.
\<close>

lemma allValid_iff:
  "allValid now f \<longleftrightarrow>
     name f \<noteq> [] \<and> length (about f) \<le> 300 \<and> isVolunteersValid (volNeeded f)
     \<and> (\<exists>d. date f = Some d \<and> now \<le> d) \<and> (\<exists>u. imageUrl f = Some u \<and> u \<noteq> [])"
  by (cases "imageUrl f"; cases "date f")
     (auto simp: allValid_def isDescriptionValid_def isDateValid_def)

lemma allValid_position: "allValid now (f\<lparr>position := p\<rparr>) = allValid now f"
  by (simp add: allValid_def isDescriptionValid_def isDateValid_def)

text \<open>
  Claim C2. A draft is to be valid only when every field rule holds, a present position
  among them, so that a draft with no position cannot be submitted. \<open>allValid\<close> is the
  conjunction of the other five rules (\<open>allValid_iff\<close>) and does not read the
  position (\<open>allValid_position\<close>): the sample draft with no position is valid, and
  \<open>onSave\<close> posts it, the body having no \<open>position\<close>.
\<close>

theorem allValid_without_position:
  "allValid 1800000000000 (sampleDraft None)
   \<and> onSave sampleISO 1800000000000 (sampleDraft None) (Resolved \<lparr>ok = True, json = Resolved ()\<rparr>)
     = \<lparr>posted = [JObj [(''name'', JStr ''Beach cleanup''),
                         (''description'', JStr ''Bring gloves''),
                         (''organizerId'', JStr ''ImAdmin''),
                         (''dateTime'', JStr ''2030-03-17T17:46:40.000Z''),
                         (''imageUrl'', JStr ''https://i.ibb.co/p.png''),
                         (''volunteersNeeded'', JNum (Fin 4)),
                         (''volunteersIds'', JArr [])]],
        notices = [(''Success'', ''Event created successfully!'')],
        navigated = [''EventsMap'']\<rparr>"
proof -
  note v = isVolunteersValid_4
  have a: "allValid 1800000000000 (sampleDraft None)"
    by (simp add: allValid_iff sampleDraft_def v)
  show ?thesis
    using a by (simp add: onSave_def eventBody_def sampleDraft_def sampleISO_def Number_4)
qed

subsection \<open>Submission\<close>

text \<open>
  Claim C10. For every valid draft, \<open>onSave\<close> sends one request, whatever becomes of
  it, and its body has \<open>volunteersIds\<close> equal to the empty array and \<open>organizerId\<close>
  equal to the constant \<open>ImAdmin\<close>: \<open>onSave\<close> reads no user identity.
\<close>

theorem onSave_body:
  assumes "allValid now f"
  shows "\<exists>d. date f = Some d
           \<and> posted (onSave toISOString now f post) = [eventBody toISOString f d]
           \<and> property (eventBody toISOString f d) ''volunteersIds'' = Some (JArr [])
           \<and> property (eventBody toISOString f d) ''organizerId'' = Some (JStr ''ImAdmin'')"
proof -
  obtain d where d: "date f = Some d"
    using assms unfolding allValid_iff by blast
  have "posted (onSave toISOString now f post) = [eventBody toISOString f d]"
    using assms d by (simp add: onSave_def split: promise.splits)
  moreover have "property (eventBody toISOString f d) ''volunteersIds'' = Some (JArr [])"
    by (simp add: eventBody_def split: option.splits)
  moreover have "property (eventBody toISOString f d) ''organizerId'' = Some (JStr ''ImAdmin'')"
    by (simp add: eventBody_def)
  ultimately show ?thesis using d by blast
qed

theorem onSave_body_witness:
  "posted (onSave sampleISO 1800000000000 (sampleDraft (Some \<lparr>latitude = 51, longitude = - 114\<rparr>)) (Rejected :: unit response promise))
     = [eventBody sampleISO (sampleDraft (Some \<lparr>latitude = 51, longitude = - 114\<rparr>)) 1900000000000]
   \<and> property (eventBody sampleISO (sampleDraft (Some \<lparr>latitude = 51, longitude = - 114\<rparr>)) 1900000000000) ''organizerId'' = Some (JStr ''ImAdmin'')
   \<and> property (eventBody sampleISO (sampleDraft (Some \<lparr>latitude = 51, longitude = - 114\<rparr>)) 1900000000000) ''volunteersIds'' = Some (JArr [])"
proof -
  note v = isVolunteersValid_4
  have a: "allValid 1800000000000 (sampleDraft (Some \<lparr>latitude = 51, longitude = - 114\<rparr>))"
    by (simp add: allValid_iff sampleDraft_def v)
  show ?thesis
    using onSave_body [OF a, of sampleISO "Rejected :: unit response promise"]
    by (auto simp: sampleDraft_def)
qed

end
